theory Spec2Isabelle
  imports Main "HOL-Library.Sublist"
begin

section \<open>PDF Insight Explorer: the analyzer and the page store of app.py\<close>

text \<open>
  The development follows \<^verbatim>\<open>src/app.py\<close>. Python strings are lists of characters
  (one \<^typ>\<open>char\<close> per Python character), Python integers are \<^typ>\<open>int\<close> or,
  where the code only ever holds a non-negative value, \<^typ>\<open>nat\<close>. The three external
  collaborators (the generative model, the PDF reader and the SQLite connection) are
  modelled by what the code observes of them.
\<close>

subsection \<open>Python helpers\<close>

text \<open>\<^verbatim>\<open>sep.join(xs)\<close>: the separator stands between consecutive elements only.\<close>

fun join :: "string \<Rightarrow> string list \<Rightarrow> string" where
  "join sep [] = []"
| "join sep [x] = x"
| "join sep (x # y # ys) = x @ sep @ join sep (y # ys)"

definition newline :: string where
  "newline = [CHR 0x0A]"

text \<open>The eight blanks every line of the triple-quoted template starts with.\<close>

definition indent :: string where
  "indent = ''        ''"

subsection \<open>AdvancedPDFAnalyzer.generate_content_with_retry (lines 18-44)\<close>

text \<open>Lines 22-23: \<^verbatim>\<open>truncated_content = pdf_content[:50000]\<close>.\<close>

definition truncated_content :: "string \<Rightarrow> string" where
  "truncated_content pdf_content = take 50000 pdf_content"

text \<open>
  Lines 26-34: the f-string. Its fixed parts are named, so that statements about the
  composed prompt can refer to them.
\<close>

definition prompt_header :: string where
  "prompt_header = newline @ indent @ ''PDF Document Context:'' @ newline @ indent"

definition prompt_middle :: string where
  "prompt_middle =
     newline @ newline @ indent @ ''User's Specific Request:'' @ newline @ indent"

definition prompt_footer :: string where
  "prompt_footer =
     newline @ newline @ indent @
     ''Please provide a comprehensive and precise response based on the document and the user's request.'' @
     newline @ indent"

definition full_prompt :: "string \<Rightarrow> string \<Rightarrow> string" where
  "full_prompt prompt pdf_content =
     prompt_header @ truncated_content pdf_content @ prompt_middle @ prompt @ prompt_footer"

text \<open>
  What one pass through the \<^verbatim>\<open>try\<close> block (lines 38-39) can do: the call and the
  read of \<^verbatim>\<open>response.text\<close> yield a text, or one of them raises an
  \<^verbatim>\<open>Exception\<close> whose \<^verbatim>\<open>str(e)\<close> is the given message.
\<close>

datatype outcome = Response string | Raises string

text \<open>
  The remote service is a function of the number of calls made before and of the prompt
  it receives. The analyzer's observable effects are the calls it makes and the seconds
  it sleeps (\<^verbatim>\<open>time.sleep\<close>, line 43), in order.
\<close>

type_synonym remote = "nat \<Rightarrow> string \<Rightarrow> outcome"

record effects =
  calls :: nat
  slept :: "nat list"

text \<open>
  Lines 36-43, the \<^verbatim>\<open>for attempt in range(max_retries)\<close> loop, entered at
  \<open>attempt\<close>. \<open>Some r\<close> is a \<^verbatim>\<open>return r\<close> from inside the loop, \<open>None\<close> is the
  loop running to its end.
\<close>

function for_attempt ::
  "remote \<Rightarrow> string \<Rightarrow> int \<Rightarrow> nat \<Rightarrow> effects \<Rightarrow> string option \<times> effects" where
  "for_attempt generate_content fp max_retries attempt st =
     (if int attempt < max_retries then
        (case generate_content (calls st) fp of
           Response text \<Rightarrow> (Some text, st\<lparr>calls := Suc (calls st)\<rparr>)
         | Raises e \<Rightarrow>
             if int attempt = max_retries - 1
             then (Some (''Error processing request: '' @ e), st\<lparr>calls := Suc (calls st)\<rparr>)
             else for_attempt generate_content fp max_retries (Suc attempt)
                    (st\<lparr>calls := Suc (calls st), slept := slept st @ [2 ^ attempt]\<rparr>))
      else (None, st))"
  by pat_completeness auto
termination
  by (relation "measure (\<lambda>(g, fp, m, a, st). nat (m - int a))") auto

declare for_attempt.simps [simp del]

definition generate_content_with_retry ::
  "remote \<Rightarrow> string \<Rightarrow> string \<Rightarrow> int \<Rightarrow> effects \<Rightarrow> string \<times> effects" where
  "generate_content_with_retry generate_content prompt pdf_content max_retries st =
     (case for_attempt generate_content (full_prompt prompt pdf_content) max_retries 0 st of
        (Some r, st') \<Rightarrow> (r, st')
      | (None, st') \<Rightarrow> (''Unable to process request'', st'))"

text \<open>The default of the parameter \<^verbatim>\<open>max_retries\<close> (line 18).\<close>

definition default_max_retries :: int where
  "default_max_retries = 3"

subsection \<open>RealTimeDatabaseManager (lines 46-102)\<close>

text \<open>
  A row of the table \<^verbatim>\<open>pdf_data\<close> (lines 58-66), with the three columns the code
  writes and reads. The columns \<^verbatim>\<open>id\<close> and \<^verbatim>\<open>extracted_at\<close> are filled in by the
  engine and read nowhere in the file; they are left out. The dictionaries appended to
  \<^verbatim>\<open>extracted_data\<close> (lines 88-92) have the same three keys.
\<close>

record page_record =
  filename :: string
  page_number :: nat
  content :: string

text \<open>
  The connection \<^verbatim>\<open>self.conn\<close>. The module \<^verbatim>\<open>sqlite3\<close> opens a transaction before an
  \<^verbatim>\<open>INSERT\<close> and keeps it open until \<^verbatim>\<open>commit()\<close>: \<open>committed\<close> are the rows
  of the database file in insertion order, \<open>pending\<close> the rows inserted by the open
  transaction. The statements themselves are taken to succeed.
\<close>

record database =
  committed :: "page_record list"
  pending :: "page_record list"

text \<open>Lines 51-67: connecting to a database file that holds \<open>rows\<close>.\<close>

definition connect :: "page_record list \<Rightarrow> database" where
  "connect rows = \<lparr>committed = rows, pending = []\<rparr>"

definition execute_insert :: "database \<Rightarrow> page_record \<Rightarrow> database" where
  "execute_insert db r = db\<lparr>pending := pending db @ [r]\<rparr>"

definition commit :: "database \<Rightarrow> database" where
  "commit db = \<lparr>committed = committed db @ pending db, pending = []\<rparr>"

text \<open>
  What a \<^verbatim>\<open>SELECT\<close> on the connection sees: the committed rows and those of its own
  open transaction.
\<close>

definition visible :: "database \<Rightarrow> page_record list" where
  "visible db = committed db @ pending db"

text \<open>
  The two ways the code can fail: an \<^verbatim>\<open>Exception\<close> raised by a library, with its
  message, and the \<^verbatim>\<open>AttributeError\<close> of a failed attribute lookup, with the class
  name and the attribute.
\<close>

datatype exn = Exception string | AttributeError string string

text \<open>
  An uploaded file, as the code observes it: its name, and what
  \<^verbatim>\<open>PyPDF2.PdfReader\<close> (line 73) makes of it, which is an exception or the pages. Of a
  page the code observes what \<^verbatim>\<open>extract_text()\<close> (line 79) does: it returns a text or
  raises.
\<close>

datatype page = Extracts string | Extract_Raises string

record uploaded_file =
  name :: string
  reader :: "string + page list"

text \<open>
  Lines 77-92, the loop over the pages, entered at \<open>page_num\<close> with the pages from there
  on. An exception leaves the loop with the rows inserted so far still pending.
\<close>

fun for_page_num ::
  "string \<Rightarrow> page list \<Rightarrow> nat \<Rightarrow> string \<Rightarrow> page_record list \<Rightarrow> database \<Rightarrow>
   (exn + page_record list \<times> string) \<times> database" where
  "for_page_num fname [] page_num full_text extracted_data db =
     (Inr (extracted_data, full_text), db)"
| "for_page_num fname (Extract_Raises e # ps) page_num full_text extracted_data db =
     (Inl (Exception e), db)"
| "for_page_num fname (Extracts page_text # ps) page_num full_text extracted_data db =
     for_page_num fname ps (Suc page_num)
       (full_text @ page_text @ newline @ newline)
       (extracted_data @
          [\<lparr>filename = fname, page_number = page_num + 1, content = page_text\<rparr>])
       (execute_insert db
          \<lparr>filename = fname, page_number = page_num + 1, content = page_text\<rparr>)"

definition extract_pdf_data ::
  "database \<Rightarrow> uploaded_file \<Rightarrow> (exn + page_record list \<times> string) \<times> database" where
  "extract_pdf_data db uploaded =
     (case reader uploaded of
        Inl e \<Rightarrow> (Inl (Exception e), db)
      | Inr pages \<Rightarrow>
          (case for_page_num (name uploaded) pages 0 [] [] db of
             (Inl e, db') \<Rightarrow> (Inl e, db')
           | (Inr r, db') \<Rightarrow> (Inr r, commit db')))"

text \<open>Lines 97-102.\<close>

definition get_pdf_content :: "database \<Rightarrow> string" where
  "get_pdf_content db = join '' '' (map content (visible db))"

text \<open>
  One run of \<^verbatim>\<open>main\<close> with an uploaded file, on a database file that holds \<open>rows\<close>:
  line 141 builds a new manager, which connects to the file, and line 155 calls
  \<^verbatim>\<open>extract_pdf_data\<close> once; an exception of the call is caught at line 200.
  Nothing else is called on that manager, so the run leaves in the file the rows its
  connection has committed.
\<close>

definition main_upload :: "page_record list \<Rightarrow> uploaded_file \<Rightarrow> page_record list" where
  "main_upload rows uploaded = committed (snd (extract_pdf_data (connect rows) uploaded))"

text \<open>Successive runs of \<^verbatim>\<open>main\<close>, one uploaded file each.\<close>

fun uploads :: "page_record list \<Rightarrow> uploaded_file list \<Rightarrow> page_record list" where
  "uploads rows [] = rows"
| "uploads rows (f # fs) = uploads (main_upload rows f) fs"

subsection \<open>The analysis dispatch of main (lines 177-201)\<close>

text \<open>
  The methods of \<^verbatim>\<open>AdvancedPDFAnalyzer\<close> (lines 10-44) that take two strings, by name.
  Besides \<^verbatim>\<open>__init__\<close>, which only sets \<^verbatim>\<open>self.model\<close>, the class defines
  \<^verbatim>\<open>generate_content_with_retry\<close> and nothing else.
\<close>

type_synonym analysis_method = "remote \<Rightarrow> string \<Rightarrow> string \<Rightarrow> effects \<Rightarrow> string \<times> effects"

definition AdvancedPDFAnalyzer_methods :: "(string \<times> analysis_method) list" where
  "AdvancedPDFAnalyzer_methods =
     [(''generate_content_with_retry'',
       \<lambda>generate_content prompt pdf_content.
         generate_content_with_retry generate_content prompt pdf_content default_max_retries)]"

text \<open>Attribute lookup on an analyzer object.\<close>

definition getattr_analyzer :: "string \<Rightarrow> exn + analysis_method" where
  "getattr_analyzer attr =
     (case map_of AdvancedPDFAnalyzer_methods attr of
        None \<Rightarrow> Inl (AttributeError ''AdvancedPDFAnalyzer'' attr)
      | Some m \<Rightarrow> Inr m)"

text \<open>\<^verbatim>\<open>str(e)\<close>.\<close>

fun str :: "exn \<Rightarrow> string" where
  "str (Exception msg) = msg"
| "str (AttributeError cls attr) =
     [CHR 0x27] @ cls @ [CHR 0x27] @ '' object has no attribute '' @
     [CHR 0x27] @ attr @ [CHR 0x27]"

text \<open>\<^verbatim>\<open>analysis_type.lower().replace(" ", "_")\<close> (line 193), on the ASCII labels.\<close>

definition lower_char :: "char \<Rightarrow> char" where
  "lower_char c =
     (if (65::nat) \<le> of_char c \<and> (of_char c :: nat) \<le> 90
      then char_of ((of_char c :: nat) + 32) else c)"

definition lower_replace :: "string \<Rightarrow> string" where
  "lower_replace s = map (\<lambda>c. if c = CHR '' '' then CHR ''_'' else c) (map lower_char s)"

text \<open>What the page shows after the button is pressed.\<close>

datatype shown =
    Warning string
  | Results string string
  | Error string

text \<open>
  Lines 177-201 for a press of the button: \<open>Results\<close> is the subheader of line 197
  with the markdown of line 198, \<open>Error\<close> the handler of lines 200-201.
\<close>

definition analyze_button ::
  "remote \<Rightarrow> string \<Rightarrow> string \<Rightarrow> string \<Rightarrow> effects \<Rightarrow> shown \<times> effects" where
  "analyze_button generate_content analysis_type custom_prompt full_text st =
     (if analysis_type = ''Custom Analysis'' \<and> custom_prompt = []
      then (Warning ''Please enter a custom prompt for analysis'', st)
      else if analysis_type = ''Custom Analysis''
      then (case generate_content_with_retry generate_content custom_prompt full_text
                   default_max_retries st of
              (result, st') \<Rightarrow> (Results analysis_type result, st'))
      else (case getattr_analyzer ''analyze_pdf_content'' of
              Inl e \<Rightarrow> (Error (''Error processing PDF: '' @ str e), st)
            | Inr analyze_pdf_content \<Rightarrow>
                (case analyze_pdf_content generate_content full_text
                        (lower_replace analysis_type) st of
                   (result, st') \<Rightarrow> (Results analysis_type result, st'))))"

subsection \<open>Notions the properties are stated with\<close>

text \<open>
  The records the page-number invariant prescribes for a document with the page texts
  \<open>ts\<close>: the page at position \<open>i\<close>, counted from 1, has page number \<open>i\<close>.
\<close>

definition page_records :: "string \<Rightarrow> string list \<Rightarrow> page_record list" where
  "page_records fname ts =
     map (\<lambda>i. \<lparr>filename = fname, page_number = i + 1, content = ts ! i\<rparr>) [0..<length ts]"

text \<open>The texts of the pages that come before the first page whose extraction raises.\<close>

fun texts_before_failure :: "page list \<Rightarrow> string list" where
  "texts_before_failure [] = []"
| "texts_before_failure (Extract_Raises e # ps) = []"
| "texts_before_failure (Extracts t # ps) = t # texts_before_failure ps"

fun extracts_all :: "page list \<Rightarrow> bool" where
  "extracts_all [] = True"
| "extracts_all (Extract_Raises e # ps) = False"
| "extracts_all (Extracts t # ps) = extracts_all ps"

text \<open>The page texts of an upload that reach the table.\<close>

definition inserted_texts :: "uploaded_file \<Rightarrow> string list" where
  "inserted_texts f = (case reader f of Inl e \<Rightarrow> [] | Inr ps \<Rightarrow> texts_before_failure ps)"

text \<open>An upload that is read and extracted without an exception.\<close>

definition succeeds :: "uploaded_file \<Rightarrow> bool" where
  "succeeds f = (case reader f of Inl e \<Rightarrow> False | Inr ps \<Rightarrow> extracts_all ps)"

text \<open>A document that is read without an exception and whose pages extract to \<open>ts\<close>.\<close>

definition pdf :: "string \<Rightarrow> string list \<Rightarrow> uploaded_file" where
  "pdf fname ts = \<lparr>name = fname, reader = Inr (map Extracts ts)\<rparr>"

section \<open>Properties\<close>

subsection \<open>The retry loop\<close>

text \<open>
  As long as the service raises and attempts remain after the current one, the loop
  sleeps and moves on: \<open>k\<close> failures in a row advance it by \<open>k\<close> attempts, with one call
  and one sleep of \<open>2 ^ attempt\<close> seconds each.
\<close>

lemma for_attempt_skip_failures:
  assumes "\<forall>i<k. g (calls st + i) fp = Raises (msg i)" and "int (a + k) < m"
  shows "for_attempt g fp m a st =
         for_attempt g fp m (a + k)
           (st\<lparr>calls := calls st + k, slept := slept st @ map (\<lambda>i. 2 ^ i) [a..<a + k]\<rparr>)"
  using assms
proof (induction k arbitrary: a st msg)
  case 0
  then show ?case by simp
next
  case (Suc k)
  let ?st = "st\<lparr>calls := Suc (calls st), slept := slept st @ [2 ^ a]\<rparr>"
  from Suc.prems have first: "g (calls st) fp = Raises (msg 0)"
    by (metis add.right_neutral zero_less_Suc)
  have rest: "\<forall>i<k. g (calls ?st + i) fp = Raises ((msg \<circ> Suc) i)"
  proof (intro allI impI)
    fix i assume "i < k"
    then have "Suc i < Suc k" by simp
    with Suc.prems(1) have "g (calls st + Suc i) fp = Raises (msg (Suc i))" by blast
    then show "g (calls ?st + i) fp = Raises ((msg \<circ> Suc) i)" by simp
  qed
  from Suc.prems have bound: "int (Suc a + k) < m"
    by simp
  have "for_attempt g fp m a st = for_attempt g fp m (Suc a) ?st"
    using first bound by (subst for_attempt.simps) simp
  also have "\<dots> = for_attempt g fp m (Suc a + k)
      (?st\<lparr>calls := calls ?st + k, slept := slept ?st @ map (\<lambda>i. 2 ^ i) [Suc a..<Suc a + k]\<rparr>)"
    by (rule Suc.IH [OF rest bound])
  also have "\<dots> = for_attempt g fp m (a + Suc k)
      (st\<lparr>calls := calls st + Suc k, slept := slept st @ map (\<lambda>i. 2 ^ i) [a..<a + Suc k]\<rparr>)"
  proof -
    have "[a..<a + Suc k] = a # [Suc a..<Suc a + k]"
      by (subst upt_rec) simp
    then show ?thesis by simp
  qed
  finally show ?case .
qed

text \<open>
  Entered with an attempt left, the loop ends in one of its two \<^verbatim>\<open>return\<close> statements:
  the result is what the last call answered, or the error string built from what the
  last call raised.
\<close>

lemma for_attempt_returns:
  "int a < m \<Longrightarrow>
   \<exists>r st'. for_attempt g fp m a st = (Some r, st') \<and> calls st < calls st' \<and>
     (g (calls st' - 1) fp = Response r \<or>
      (\<exists>e. g (calls st' - 1) fp = Raises e \<and> r = ''Error processing request: '' @ e))"
proof (induction g fp m a st rule: for_attempt.induct)
  case (1 g fp m a st)
  show ?case
  proof (cases "g (calls st) fp")
    case (Response t)
    with "1.prems" show ?thesis
      by (subst for_attempt.simps) simp
  next
    case (Raises e)
    show ?thesis
    proof (cases "int a = m - 1")
      case True
      with Raises "1.prems" show ?thesis
        by (subst for_attempt.simps) simp
    next
      case False
      let ?st = "st\<lparr>calls := Suc (calls st), slept := slept st @ [2 ^ a]\<rparr>"
      from False "1.prems" have "int (Suc a) < m" by simp
      from "1.IH" [OF "1.prems" Raises False this]
      obtain r st' where h: "for_attempt g fp m (Suc a) ?st = (Some r, st')"
        "calls ?st < calls st'"
        "g (calls st' - 1) fp = Response r \<or>
          (\<exists>e. g (calls st' - 1) fp = Raises e \<and> r = ''Error processing request: '' @ e)"
        by blast
      have "for_attempt g fp m a st = for_attempt g fp m (Suc a) ?st"
        using Raises False "1.prems" by (subst for_attempt.simps) simp
      with h show ?thesis by auto
    qed
  qed
qed

text \<open>
  C1: if each of the three calls that \<^verbatim>\<open>generate_content_with_retry\<close> makes with
  \<^verbatim>\<open>max_retries = 3\<close> raises an exception, the function returns the string
  \<^verbatim>\<open>"Error processing request: "\<close> followed by the message of the third, last failure,
  after exactly three calls to the service (and sleeps of 1 and 2 seconds between them).
  The result is a string returned to the caller: no exception leaves the function.
\<close>

theorem retry_exhausted_returns_error_string:
  assumes "\<forall>i<3. g (calls st + i) (full_prompt prompt pdf_content) = Raises (msg i)"
  shows "generate_content_with_retry g prompt pdf_content 3 st =
         (''Error processing request: '' @ msg 2,
          st\<lparr>calls := calls st + 3, slept := slept st @ [1, 2]\<rparr>)"
proof -
  let ?fp = "full_prompt prompt pdf_content"
  let ?st = "st\<lparr>calls := calls st + 2, slept := slept st @ map (\<lambda>i. 2 ^ i) [0..<0 + 2]\<rparr>"
  from assms have two: "\<forall>i<2. g (calls st + i) ?fp = Raises (msg i)"
    by simp
  have "for_attempt g ?fp 3 0 st = for_attempt g ?fp 3 (0 + 2) ?st"
    using two
    by (intro for_attempt_skip_failures [where k = 2 and a = 0 and m = 3 and msg = msg]) simp_all
  moreover from assms [rule_format, of 2] have "g (calls ?st) ?fp = Raises (msg 2)"
    by simp
  then have "for_attempt g ?fp 3 (0 + 2) ?st =
      (Some (''Error processing request: '' @ msg 2), ?st\<lparr>calls := Suc (calls ?st)\<rparr>)"
    by (subst for_attempt.simps) simp
  moreover have "[0..<0 + 2] = [0, Suc 0]"
    by (simp add: upt_rec)
  ultimately show ?thesis
    by (simp add: generate_content_with_retry_def)
qed

text \<open>A service that is busy twice and then times out.\<close>

theorem retry_exhausted_returns_error_string_witness:
  "(\<lambda>n p. Raises (if n = 2 then ''timeout'' else ''busy''))
     (0::nat) (full_prompt ''Summarize'' ''Alpha'') = Raises ''busy'' \<and>
   (\<lambda>n p. Raises (if n = 2 then ''timeout'' else ''busy''))
     (1::nat) (full_prompt ''Summarize'' ''Alpha'') = Raises ''busy'' \<and>
   (\<lambda>n p. Raises (if n = 2 then ''timeout'' else ''busy''))
     (2::nat) (full_prompt ''Summarize'' ''Alpha'') = Raises ''timeout'' \<and>
   generate_content_with_retry (\<lambda>n p. Raises (if n = 2 then ''timeout'' else ''busy''))
     ''Summarize'' ''Alpha'' 3 \<lparr>calls = 0, slept = []\<rparr> =
   (''Error processing request: timeout'', \<lparr>calls = 3, slept = [1, 2]\<rparr>)"
  using retry_exhausted_returns_error_string
    [where st = "\<lparr>calls = 0, slept = []\<rparr>"
       and g = "\<lambda>n p. Raises (if n = 2 then ''timeout'' else ''busy'')"
       and prompt = "''Summarize''" and pdf_content = "''Alpha''"
       and msg = "\<lambda>n. if n = 2 then ''timeout'' else ''busy''"]
  by simp

text \<open>
  C2: for every \<open>K\<close> below \<^verbatim>\<open>max_retries\<close>, if the service raises on the first \<open>K\<close>
  calls and answers the next one, \<^verbatim>\<open>generate_content_with_retry\<close> returns the text of
  that answer and has made exactly \<open>K + 1\<close> calls, sleeping \<open>2 ^ i\<close> seconds after the
  failure of attempt \<open>i\<close>.
\<close>

theorem retry_returns_first_success:
  assumes "\<forall>i<K. g (calls st + i) (full_prompt prompt pdf_content) = Raises (msg i)"
    and "g (calls st + K) (full_prompt prompt pdf_content) = Response t"
    and "int K < max_retries"
  shows "generate_content_with_retry g prompt pdf_content max_retries st =
         (t, st\<lparr>calls := calls st + K + 1, slept := slept st @ map (\<lambda>i. 2 ^ i) [0..<K]\<rparr>)"
proof -
  let ?fp = "full_prompt prompt pdf_content"
  let ?st = "st\<lparr>calls := calls st + K, slept := slept st @ map (\<lambda>i. 2 ^ i) [0..<0 + K]\<rparr>"
  from assms(3) have "int (0 + K) < max_retries"
    by simp
  with assms(1)
  have "for_attempt g ?fp max_retries 0 st = for_attempt g ?fp max_retries (0 + K) ?st"
    by (intro for_attempt_skip_failures [where k = K and a = 0 and msg = msg]) simp_all
  moreover from assms(2,3) have "for_attempt g ?fp max_retries (0 + K) ?st =
      (Some t, ?st\<lparr>calls := Suc (calls ?st)\<rparr>)"
    by (subst for_attempt.simps) simp
  ultimately show ?thesis
    by (simp add: generate_content_with_retry_def)
qed

text \<open>Two failures, then an answer on the third attempt.\<close>

theorem retry_returns_first_success_witness:
  "(\<lambda>n p. if n < 2 then Raises ''busy'' else Response ''The summary'')
     (0::nat) (full_prompt ''Summarize'' ''Alpha'') = Raises ''busy'' \<and>
   (\<lambda>n p. if n < 2 then Raises ''busy'' else Response ''The summary'')
     (1::nat) (full_prompt ''Summarize'' ''Alpha'') = Raises ''busy'' \<and>
   (\<lambda>n p. if n < 2 then Raises ''busy'' else Response ''The summary'')
     (2::nat) (full_prompt ''Summarize'' ''Alpha'') = Response ''The summary'' \<and>
   int 2 < 3 \<and>
   generate_content_with_retry
     (\<lambda>n p. if n < 2 then Raises ''busy'' else Response ''The summary'')
     ''Summarize'' ''Alpha'' 3 \<lparr>calls = 0, slept = []\<rparr> =
   (''The summary'', \<lparr>calls = 3, slept = [1, 2]\<rparr>)"
proof -
  have "[0..<2] = [0, Suc 0]"
    by (simp add: upt_rec)
  with retry_returns_first_success
    [where K = 2 and g = "\<lambda>n p. if n < 2 then Raises ''busy'' else Response ''The summary''"
       and st = "\<lparr>calls = 0, slept = []\<rparr>" and prompt = "''Summarize''"
       and pdf_content = "''Alpha''" and msg = "\<lambda>n. ''busy''" and t = "''The summary''"
       and max_retries = 3]
  show ?thesis by simp
qed

text \<open>
  C10: whenever \<^verbatim>\<open>max_retries\<close> is at least 1, the loop of
  \<^verbatim>\<open>generate_content_with_retry\<close> returns from inside (its result is \<open>Some\<close>), and
  the value returned is the text the last call answered or
  \<^verbatim>\<open>"Error processing request: "\<close> followed by the message the last call raised. The
  \<^verbatim>\<open>return "Unable to process request"\<close> after the loop is not reached.
\<close>

theorem retry_loop_always_returns:
  assumes "1 \<le> max_retries"
  shows "\<exists>r st'.
           for_attempt g (full_prompt prompt pdf_content) max_retries 0 st = (Some r, st') \<and>
           generate_content_with_retry g prompt pdf_content max_retries st = (r, st') \<and>
           (g (calls st' - 1) (full_prompt prompt pdf_content) = Response r \<or>
            (\<exists>e. g (calls st' - 1) (full_prompt prompt pdf_content) = Raises e \<and>
                 r = ''Error processing request: '' @ e))"
proof -
  from assms have "int 0 < max_retries"
    by simp
  from for_attempt_returns [OF this, of g "full_prompt prompt pdf_content" st]
  obtain r st' where
    "for_attempt g (full_prompt prompt pdf_content) max_retries 0 st = (Some r, st')"
    "g (calls st' - 1) (full_prompt prompt pdf_content) = Response r \<or>
      (\<exists>e. g (calls st' - 1) (full_prompt prompt pdf_content) = Raises e \<and>
           r = ''Error processing request: '' @ e)"
    by blast
  then show ?thesis
    by (simp add: generate_content_with_retry_def)
qed

text \<open>A single attempt that fails.\<close>

theorem retry_loop_always_returns_witness:
  "(1::int) \<le> 1 \<and>
   (\<exists>r st'.
      for_attempt (\<lambda>n p. Raises ''busy'')
        (full_prompt ''Summarize'' ''Alpha'') 1 0 \<lparr>calls = 0, slept = []\<rparr> = (Some r, st') \<and>
      generate_content_with_retry (\<lambda>n p. Raises ''busy'')
        ''Summarize'' ''Alpha'' 1 \<lparr>calls = 0, slept = []\<rparr> = (r, st') \<and>
      ((\<lambda>n p. Raises ''busy'') (calls st' - 1)
          (full_prompt ''Summarize'' ''Alpha'') = Response r \<or>
       (\<exists>e. (\<lambda>n p. Raises ''busy'') (calls st' - 1)
               (full_prompt ''Summarize'' ''Alpha'') = Raises e \<and>
            r = ''Error processing request: '' @ e)))"
  using retry_loop_always_returns
    [where max_retries = 1 and g = "\<lambda>n p. Raises ''busy''"
       and prompt = "''Summarize''" and pdf_content = "''Alpha''"
       and st = "\<lparr>calls = 0, slept = []\<rparr>"]
  by simp

subsection \<open>The composed prompt\<close>

text \<open>
  C3: the composed prompt is the fixed header, the document excerpt, the fixed middle
  part, the instruction and the fixed footer. For a document of at most 50000 characters
  the excerpt is the whole document, verbatim; for a longer one it is its first 50000
  characters, exactly that many, and what follows them is left out.
\<close>

theorem prompt_holds_capped_document:
  "(length pdf_content \<le> 50000 \<longrightarrow>
      full_prompt prompt pdf_content =
        prompt_header @ pdf_content @ prompt_middle @ prompt @ prompt_footer) \<and>
   (50000 < length pdf_content \<longrightarrow>
      full_prompt prompt pdf_content =
        prompt_header @ take 50000 pdf_content @ prompt_middle @ prompt @ prompt_footer \<and>
      length (take 50000 pdf_content) = 50000 \<and>
      prefix (take 50000 pdf_content) pdf_content \<and>
      drop 50000 pdf_content \<noteq> [])"
  by (simp add: full_prompt_def truncated_content_def take_is_prefix)

text \<open>A short document, and one of 60000 characters.\<close>

theorem prompt_holds_capped_document_witness:
  "length ''Alpha'' \<le> 50000 \<and>
   full_prompt ''Summarize'' ''Alpha'' =
     prompt_header @ ''Alpha'' @ prompt_middle @ ''Summarize'' @ prompt_footer \<and>
   50000 < length (replicate 60000 CHR ''x'') \<and>
   full_prompt ''Summarize'' (replicate 60000 CHR ''x'') =
     prompt_header @ replicate 50000 CHR ''x'' @ prompt_middle @ ''Summarize'' @ prompt_footer \<and>
   length (replicate 50000 CHR ''x'') = 50000"
  using prompt_holds_capped_document
      [where pdf_content = "''Alpha''" and prompt = "''Summarize''"]
    prompt_holds_capped_document
      [where pdf_content = "replicate 60000 CHR ''x''" and prompt = "''Summarize''"]
  by simp

subsection \<open>Extraction and the store\<close>

text \<open>
  The loop over the pages, entered at page index \<open>n\<close>: it inserts one row for each page
  before the first one that raises, numbered from \<open>n + 1\<close> on, and touches nothing
  else of the connection.
\<close>

lemma page_records_Nil: "page_records fname [] = []"
  by (simp add: page_records_def)

lemma numbered_Cons:
  "map (\<lambda>i. \<lparr>filename = fname, page_number = n + i + 1, content = (t # ts) ! i\<rparr>)
     [0..<length (t # ts)] =
   \<lparr>filename = fname, page_number = n + 1, content = t\<rparr> #
   map (\<lambda>i. \<lparr>filename = fname, page_number = Suc n + i + 1, content = ts ! i\<rparr>)
     [0..<length ts]"
proof -
  have "[0..<length (t # ts)] = 0 # map Suc [0..<length ts]"
    by (simp add: upt_conv_Cons map_Suc_upt del: upt_Suc)
  then show ?thesis
    by (simp add: comp_def)
qed

lemma for_page_num_db:
  "snd (for_page_num fname ps n ft ed db) =
   db\<lparr>pending := pending db @
     map (\<lambda>i. \<lparr>filename = fname, page_number = n + i + 1,
                 content = texts_before_failure ps ! i\<rparr>)
       [0..<length (texts_before_failure ps)]\<rparr>"
proof (induction fname ps n ft ed db rule: for_page_num.induct)
  case (1 fname page_num full_text extracted_data db)
  then show ?case by simp
next
  case (2 fname e ps page_num full_text extracted_data db)
  then show ?case by simp
next
  case (3 fname page_text ps page_num full_text extracted_data db)
  show ?case
    unfolding for_page_num.simps texts_before_failure.simps "3.IH" numbered_Cons
    by (simp add: execute_insert_def)
qed

text \<open>
  When every page extracts, the loop returns the same records and the full text, every
  page text followed by two newlines; otherwise it raises.
\<close>

lemma for_page_num_ok:
  "extracts_all ps \<Longrightarrow>
   fst (for_page_num fname ps n ft ed db) =
   Inr (ed @ map (\<lambda>i. \<lparr>filename = fname, page_number = n + i + 1,
                          content = texts_before_failure ps ! i\<rparr>)
               [0..<length (texts_before_failure ps)],
        ft @ concat (map (\<lambda>t. t @ newline @ newline) (texts_before_failure ps)))"
proof (induction fname ps n ft ed db rule: for_page_num.induct)
  case (1 fname page_num full_text extracted_data db)
  then show ?case by simp
next
  case (2 fname e ps page_num full_text extracted_data db)
  then show ?case by simp
next
  case (3 fname page_text ps page_num full_text extracted_data db)
  from "3.prems" have "extracts_all ps" by simp
  from "3.IH" [OF this] show ?case
    unfolding for_page_num.simps texts_before_failure.simps numbered_Cons
    by simp
qed

lemma for_page_num_fail:
  "\<not> extracts_all ps \<Longrightarrow> \<exists>e. fst (for_page_num fname ps n ft ed db) = Inl (Exception e)"
  by (induction fname ps n ft ed db rule: for_page_num.induct) simp_all

text \<open>
  The whole of \<^verbatim>\<open>extract_pdf_data\<close>: a successful call commits the rows pending on the
  connection together with its own; a failing call leaves its rows pending.
\<close>

lemma extract_pdf_data_ok:
  assumes "succeeds f"
  shows "extract_pdf_data db f =
         (Inr (page_records (name f) (inserted_texts f),
               concat (map (\<lambda>t. t @ newline @ newline) (inserted_texts f))),
          \<lparr>committed = committed db @ pending db @ page_records (name f) (inserted_texts f),
           pending = []\<rparr>)"
proof -
  from assms obtain ps where ps: "reader f = Inr ps" "extracts_all ps"
    by (auto simp: succeeds_def split: sum.splits)
  obtain res db' where run: "for_page_num (name f) ps 0 [] [] db = (res, db')"
    by (cases "for_page_num (name f) ps 0 [] [] db")
  from for_page_num_ok [OF ps(2), of "name f" 0 "[]" "[]" db] run
  have res: "res = Inr (page_records (name f) (texts_before_failure ps),
      concat (map (\<lambda>t. t @ newline @ newline) (texts_before_failure ps)))"
    by (simp add: page_records_def)
  from for_page_num_db [of "name f" ps 0 "[]" "[]" db] run
  have db': "db' = db\<lparr>pending := pending db @ page_records (name f) (texts_before_failure ps)\<rparr>"
    by (simp add: page_records_def)
  show ?thesis
    by (simp add: extract_pdf_data_def ps(1) run res db' commit_def inserted_texts_def)
qed

lemma extract_pdf_data_fail:
  assumes "\<not> succeeds f"
  shows "\<exists>e. extract_pdf_data db f =
           (Inl e, db\<lparr>pending := pending db @ page_records (name f) (inserted_texts f)\<rparr>)"
proof (cases "reader f")
  case (Inl e)
  then show ?thesis
    by (simp add: extract_pdf_data_def inserted_texts_def page_records_Nil)
next
  case (Inr ps)
  with assms have bad: "\<not> extracts_all ps"
    by (simp add: succeeds_def)
  obtain res db' where run: "for_page_num (name f) ps 0 [] [] db = (res, db')"
    by (cases "for_page_num (name f) ps 0 [] [] db")
  from for_page_num_fail [OF bad, of "name f" 0 "[]" "[]" db] run
  obtain e where res: "res = Inl (Exception e)"
    by auto
  from for_page_num_db [of "name f" ps 0 "[]" "[]" db] run
  have db': "db' = db\<lparr>pending := pending db @ page_records (name f) (texts_before_failure ps)\<rparr>"
    by (simp add: page_records_def)
  show ?thesis
    by (simp add: extract_pdf_data_def Inr run res db' inserted_texts_def)
qed

lemma visible_extract_pdf_data:
  "visible (snd (extract_pdf_data db f)) =
   visible db @ page_records (name f) (inserted_texts f)"
proof (cases "succeeds f")
  case True
  then show ?thesis
    by (simp add: extract_pdf_data_ok visible_def)
next
  case False
  from extract_pdf_data_fail [OF this, of db] show ?thesis
    by (auto simp: visible_def)
qed

text \<open>
  A run of \<^verbatim>\<open>main\<close> adds the records of all pages of the upload to the file when the
  call returns, and none when it raises.
\<close>

lemma main_upload_eq:
  "main_upload rows f =
   rows @ (if succeeds f then page_records (name f) (inserted_texts f) else [])"
proof (cases "succeeds f")
  case True
  then show ?thesis
    by (simp add: main_upload_def extract_pdf_data_ok connect_def)
next
  case False
  from extract_pdf_data_fail [OF this, of "connect rows"] False show ?thesis
    by (auto simp: main_upload_def connect_def)
qed

lemma uploads_eq:
  "uploads rows fs =
   rows @ concat (map (\<lambda>f. if succeeds f then page_records (name f) (inserted_texts f)
                              else []) fs)"
  by (induction fs arbitrary: rows) (simp_all add: main_upload_eq)

lemma extracts_all_texts:
  "extracts_all ps \<Longrightarrow> map Extracts (texts_before_failure ps) = ps"
  by (induction ps rule: texts_before_failure.induct) simp_all

lemma succeeds_reader:
  "succeeds f \<Longrightarrow> reader f = Inr (map Extracts (inserted_texts f))"
  by (auto simp: succeeds_def inserted_texts_def extracts_all_texts split: sum.splits)

text \<open>Joined strings.\<close>

lemma content_page_records: "map content (page_records fname ts) = ts"
  by (simp add: page_records_def map_nth comp_def)

lemma sublist_join: "t \<in> set ts \<Longrightarrow> sublist t (join sep ts)"
proof (induction sep ts rule: join.induct)
  case (1 sep)
  then show ?case by simp
next
  case (2 sep x)
  then show ?case by simp
next
  case (3 sep x y ys)
  show ?case
  proof (cases "t = x")
    case True
    then show ?thesis
      by (simp add: sublist_append_rightI)
  next
    case False
    with "3.prems" have "t \<in> set (y # ys)" by simp
    from "3.IH" [OF this] have "sublist t (join sep (y # ys))" .
    then obtain ps ss where "join sep (y # ys) = ps @ t @ ss"
      by (auto simp: sublist_def)
    then have "join sep (x # y # ys) = (x @ sep @ ps) @ t @ ss"
      by simp
    then show ?thesis
      unfolding sublist_def by blast
  qed
qed

lemma terminated_join:
  "ts \<noteq> [] \<Longrightarrow> concat (map (\<lambda>t. t @ sep) ts) = join sep ts @ sep"
  by (induction sep ts rule: join.induct) simp_all

text \<open>Readable documents, and the records of a document page by page.\<close>

lemma texts_before_failure_Extracts: "texts_before_failure (map Extracts ts) = ts"
  by (induction ts) simp_all

lemma extracts_all_Extracts: "extracts_all (map Extracts ts)"
  by (induction ts) simp_all

lemma succeeds_pdf: "succeeds (pdf fname ts)"
  by (simp add: succeeds_def pdf_def extracts_all_Extracts)

lemma inserted_texts_pdf: "inserted_texts (pdf fname ts) = ts"
  by (simp add: inserted_texts_def pdf_def texts_before_failure_Extracts)

lemma name_pdf: "name (pdf fname ts) = fname"
  by (simp add: pdf_def)

lemma length_page_records: "length (page_records fname ts) = length ts"
  by (simp add: page_records_def)

lemma nth_page_records:
  "i < length ts \<Longrightarrow>
   page_records fname ts ! i = \<lparr>filename = fname, page_number = i + 1, content = ts ! i\<rparr>"
  by (simp add: page_records_def)

lemma nth_texts_before_failure:
  "i < length (texts_before_failure ps) \<Longrightarrow>
   i < length ps \<and> ps ! i = Extracts (texts_before_failure ps ! i)"
proof (induction ps arbitrary: i rule: texts_before_failure.induct)
  case 1
  then show ?case by simp
next
  case (2 e ps)
  then show ?case by simp
next
  case (3 t ps)
  then show ?case by (cases i) simp_all
qed

lemma page_records_two:
  "page_records fname [a, b] =
   [\<lparr>filename = fname, page_number = 1, content = a\<rparr>,
    \<lparr>filename = fname, page_number = 2, content = b\<rparr>]"
  by (simp add: page_records_def upt_rec)

lemma page_records_one:
  "page_records fname [a] = [\<lparr>filename = fname, page_number = 1, content = a\<rparr>]"
  by (simp add: page_records_def)

text \<open>
  Extraction writes to the store: one page on an empty database leaves one committed row.
\<close>

theorem extraction_writes_store_counterexample:
  "committed (snd (extract_pdf_data (connect []) (pdf ''a.pdf'' [''Alpha'']))) =
     [\<lparr>filename = ''a.pdf'', page_number = 1, content = ''Alpha''\<rparr>] \<and>
   snd (extract_pdf_data (connect []) (pdf ''a.pdf'' [''Alpha''])) \<noteq> connect []"
  by (simp add: extract_pdf_data_def pdf_def connect_def commit_def execute_insert_def)

text \<open>
  C5: \<^verbatim>\<open>extract_pdf_data\<close> does the persisting itself. For a document that is read
  without an exception it inserts one page record per page, in page order, and commits
  them: the committed rows afterwards are the rows the connection held before, followed
  by exactly one record per page. Only the value it returns (the page list and the full
  text) is independent of the state of the store.
\<close>

theorem extraction_persists_every_page:
  "snd (extract_pdf_data db (pdf fname ts)) =
     \<lparr>committed = committed db @ pending db @ page_records fname ts, pending = []\<rparr> \<and>
   length (page_records fname ts) = length ts \<and>
   fst (extract_pdf_data db (pdf fname ts)) = fst (extract_pdf_data db' (pdf fname ts))"
  by (simp add: extract_pdf_data_ok [OF succeeds_pdf] inserted_texts_pdf name_pdf
      length_page_records)

text \<open>The two pages \<^verbatim>\<open>Alpha\<close> and \<^verbatim>\<open>Beta\<close> on an empty database.\<close>

theorem extraction_persists_every_page_witness:
  "snd (extract_pdf_data (connect []) (pdf ''a.pdf'' [''Alpha'', ''Beta''])) =
     \<lparr>committed = [\<lparr>filename = ''a.pdf'', page_number = 1, content = ''Alpha''\<rparr>,
                  \<lparr>filename = ''a.pdf'', page_number = 2, content = ''Beta''\<rparr>],
      pending = []\<rparr>"
  using extraction_persists_every_page
    [where db = "connect []" and fname = "''a.pdf''" and ts = "[''Alpha'', ''Beta'']"]
  by (simp add: page_records_two connect_def)

text \<open>
  C6: every run of \<^verbatim>\<open>main\<close> with an upload persists either all page records of the
  upload or none. When the call of \<^verbatim>\<open>extract_pdf_data\<close> returns, the file holds the
  rows it held before followed by one record for every page of the document. When the
  call raises, because the reader or the extraction of some page raises, line 94 is not
  reached and the file holds exactly the rows it held before: none of the records of the
  pages before the failure is retained. After any sequence of runs the file therefore
  holds, besides the earlier rows, the complete records of the uploads that succeeded
  and nothing of those that failed.
\<close>

theorem upload_persists_all_pages_or_none:
  "(succeeds f \<longrightarrow>
      (\<exists>r. fst (extract_pdf_data (connect rows) f) = Inr r) \<and>
      reader f = Inr (map Extracts (inserted_texts f)) \<and>
      main_upload rows f = rows @ page_records (name f) (inserted_texts f)) \<and>
   (\<not> succeeds f \<longrightarrow>
      (\<exists>e. fst (extract_pdf_data (connect rows) f) = Inl e) \<and>
      main_upload rows f = rows) \<and>
   uploads rows fs =
     rows @ concat (map (\<lambda>f. if succeeds f then page_records (name f) (inserted_texts f)
                                else []) fs)"
proof -
  have "\<exists>r. fst (extract_pdf_data (connect rows) f) = Inr r" if "succeeds f"
    using extract_pdf_data_ok [OF that, of "connect rows"] by simp
  moreover have "\<exists>e. fst (extract_pdf_data (connect rows) f) = Inl e" if "\<not> succeeds f"
    using extract_pdf_data_fail [OF that, of "connect rows"] by auto
  ultimately show ?thesis
    by (simp add: main_upload_eq uploads_eq succeeds_reader)
qed

text \<open>
  A document whose second page raises, then a readable one: the first run leaves the
  empty file empty, the second adds its page.
\<close>

theorem upload_persists_all_pages_or_none_witness:
  "fst (extract_pdf_data (connect [])
          \<lparr>name = ''a.pdf'', reader = Inr [Extracts ''Alpha'', Extract_Raises ''bad page'']\<rparr>) =
     Inl (Exception ''bad page'') \<and>
   main_upload []
     \<lparr>name = ''a.pdf'', reader = Inr [Extracts ''Alpha'', Extract_Raises ''bad page'']\<rparr> = [] \<and>
   main_upload [] (pdf ''b.pdf'' [''Beta'']) =
     [\<lparr>filename = ''b.pdf'', page_number = 1, content = ''Beta''\<rparr>] \<and>
   uploads []
     [\<lparr>name = ''a.pdf'', reader = Inr [Extracts ''Alpha'', Extract_Raises ''bad page'']\<rparr>,
      pdf ''b.pdf'' [''Beta'']] =
     [\<lparr>filename = ''b.pdf'', page_number = 1, content = ''Beta''\<rparr>]"
proof -
  let ?a = "\<lparr>name = ''a.pdf'', reader = Inr [Extracts ''Alpha'', Extract_Raises ''bad page'']\<rparr>"
  have a: "\<not> succeeds ?a"
    by (simp add: succeeds_def)
  have b: "succeeds (pdf ''b.pdf'' [''Beta''])"
    by (rule succeeds_pdf)
  have "fst (extract_pdf_data (connect []) ?a) = Inl (Exception ''bad page'')"
    by (simp add: extract_pdf_data_def)
  moreover from a upload_persists_all_pages_or_none [where f = ?a and rows = "[]"]
  have "main_upload [] ?a = []"
    by simp
  moreover from b upload_persists_all_pages_or_none
    [where f = "pdf ''b.pdf'' [''Beta'']" and rows = "[]"]
  have "main_upload [] (pdf ''b.pdf'' [''Beta'']) =
      [\<lparr>filename = ''b.pdf'', page_number = 1, content = ''Beta''\<rparr>]"
    by (simp add: inserted_texts_pdf name_pdf page_records_one)
  moreover from a b upload_persists_all_pages_or_none
    [where rows = "[]" and fs = "[?a, pdf ''b.pdf'' [''Beta'']]"]
  have "uploads [] [?a, pdf ''b.pdf'' [''Beta'']] =
      [\<lparr>filename = ''b.pdf'', page_number = 1, content = ''Beta''\<rparr>]"
    by (simp add: inserted_texts_pdf name_pdf page_records_one)
  ultimately show ?thesis
    by simp
qed

text \<open>
  C7: on a database file holding \<open>rows\<close>, after any sequence of uploads of readable
  documents, \<^verbatim>\<open>get_pdf_content\<close> returns the texts of all stored pages (those of
  \<open>rows\<close>, then those of each upload in upload order and page order) joined by single
  blanks; every one of these texts, the empty ones included, occurs in the result; and
  on an empty database the result is the empty string. The same holds when the manager
  that has just recorded the pages of a document is the one that reads.
\<close>

theorem read_all_content_space_joined:
  "get_pdf_content (connect (uploads rows (map (\<lambda>(fname, ts). pdf fname ts) docs))) =
     join '' '' (map content rows @ concat (map snd docs)) \<and>
   (\<forall>t \<in> set (map content rows @ concat (map snd docs)).
      sublist t
        (get_pdf_content (connect (uploads rows (map (\<lambda>(fname, ts). pdf fname ts) docs))))) \<and>
   get_pdf_content (snd (extract_pdf_data (connect rows) (pdf fname ts))) =
     join '' '' (map content rows @ ts) \<and>
   get_pdf_content (connect []) = []"
proof -
  let ?fs = "map (\<lambda>(fname, ts). pdf fname ts) docs"
  have "map content (concat (map (\<lambda>f. if succeeds f
          then page_records (name f) (inserted_texts f) else []) ?fs)) =
        concat (map snd docs)"
    by (induction docs) (auto simp: content_page_records inserted_texts_pdf succeeds_pdf)
  then have eq: "get_pdf_content (connect (uploads rows ?fs)) =
      join '' '' (map content rows @ concat (map snd docs))"
    by (simp add: get_pdf_content_def uploads_eq visible_def connect_def)
  have same: "get_pdf_content (snd (extract_pdf_data (connect rows) (pdf fname ts))) =
      join '' '' (map content rows @ ts)"
    by (simp add: get_pdf_content_def visible_extract_pdf_data inserted_texts_pdf
        content_page_records) (simp add: visible_def connect_def)
  have "get_pdf_content (connect []) = []"
    by (simp add: get_pdf_content_def visible_def connect_def)
  with eq same show ?thesis
    by (simp add: sublist_join)
qed

text \<open>The two pages \<^verbatim>\<open>Alpha\<close> and \<^verbatim>\<open>Beta\<close> read back as \<^verbatim>\<open>Alpha Beta\<close>.\<close>

theorem read_all_content_space_joined_witness:
  "get_pdf_content (connect (uploads [] [pdf ''a.pdf'' [''Alpha'', ''Beta'']])) =
     ''Alpha Beta'' \<and>
   sublist ''Alpha''
     (get_pdf_content (connect (uploads [] [pdf ''a.pdf'' [''Alpha'', ''Beta'']]))) \<and>
   sublist ''Beta''
     (get_pdf_content (connect (uploads [] [pdf ''a.pdf'' [''Alpha'', ''Beta'']]))) \<and>
   get_pdf_content (snd (extract_pdf_data (connect []) (pdf ''a.pdf'' [''Alpha'', ''Beta'']))) =
     ''Alpha Beta''"
  using read_all_content_space_joined
    [where rows = "[]" and docs = "[(''a.pdf'', [''Alpha'', ''Beta''])]"
       and fname = "''a.pdf''" and ts = "[''Alpha'', ''Beta'']"]
  by auto

text \<open>
  The full text of a one-page document ends in a blank line, which the text joined with
  blank-line separators does not.
\<close>

theorem full_text_joined_counterexample:
  "fst (extract_pdf_data (connect []) (pdf ''a.pdf'' [''Alpha''])) =
     Inr ([\<lparr>filename = ''a.pdf'', page_number = 1, content = ''Alpha''\<rparr>],
          ''Alpha'' @ newline @ newline) \<and>
   ''Alpha'' @ newline @ newline \<noteq> join (newline @ newline) [''Alpha'']"
  by (simp add: extract_pdf_data_def pdf_def connect_def commit_def execute_insert_def
      newline_def)

text \<open>
  C8: for a document whose pages extract to the texts \<open>ts\<close>, the accumulated full text
  is the page texts in document order, each followed by a blank line
  (\<^verbatim>\<open>"\n\n"\<close>): the texts joined with a blank-line separator, followed by one more
  blank line after the last page; for a document without pages it is the empty string.
\<close>

theorem full_text_terminates_every_page:
  "fst (extract_pdf_data db (pdf fname ts)) =
     Inr (page_records fname ts,
          join (newline @ newline) ts @ (if ts = [] then [] else newline @ newline))"
proof (cases "ts = []")
  case True
  then show ?thesis
    by (simp add: extract_pdf_data_ok [OF succeeds_pdf] inserted_texts_pdf name_pdf)
next
  case False
  from terminated_join [OF this, of "newline @ newline"] False show ?thesis
    by (simp add: extract_pdf_data_ok [OF succeeds_pdf] inserted_texts_pdf name_pdf)
qed

text \<open>The full text of the two pages \<^verbatim>\<open>Alpha\<close> and \<^verbatim>\<open>Beta\<close>.\<close>

theorem full_text_terminates_every_page_witness:
  "fst (extract_pdf_data (connect []) (pdf ''a.pdf'' [''Alpha'', ''Beta''])) =
     Inr ([\<lparr>filename = ''a.pdf'', page_number = 1, content = ''Alpha''\<rparr>,
           \<lparr>filename = ''a.pdf'', page_number = 2, content = ''Beta''\<rparr>],
          ''Alpha'' @ newline @ newline @ ''Beta'' @ newline @ newline)"
  using full_text_terminates_every_page
    [where db = "connect []" and fname = "''a.pdf''" and ts = "[''Alpha'', ''Beta'']"]
  by (simp add: page_records_two)

text \<open>
  C9: every call of \<^verbatim>\<open>extract_pdf_data\<close>, on any state of the connection and whether
  it returns or raises, adds to the rows of the table the records of the pages it
  inserted, and after any sequence of uploads on a database file holding \<open>rows\<close> the
  file holds \<open>rows\<close> followed, for each upload that succeeded, in order, by the records
  of its pages. In both, the record at position \<open>i\<close> of an upload (counted from 0) has
  page number \<open>i + 1\<close> and holds the text that the page at position \<open>i\<close> of the source
  document extracted to.
\<close>

theorem page_number_is_position:
  "visible (snd (extract_pdf_data db f)) =
     visible db @ page_records (name f) (inserted_texts f) \<and>
   uploads rows fs =
     rows @ concat (map (\<lambda>f. if succeeds f then page_records (name f) (inserted_texts f)
                                else []) fs) \<and>
   (\<forall>u. \<forall>i < length (inserted_texts u).
      page_records (name u) (inserted_texts u) ! i =
        \<lparr>filename = name u, page_number = i + 1, content = inserted_texts u ! i\<rparr> \<and>
      (\<forall>ps. reader u = Inr ps \<longrightarrow> i < length ps \<and> ps ! i = Extracts (inserted_texts u ! i)))"
proof -
  have "\<forall>ps. reader f = Inr ps \<longrightarrow> i < length ps \<and> ps ! i = Extracts (inserted_texts f ! i)"
    if "i < length (inserted_texts f)" for f i
    using that nth_texts_before_failure [of i]
    by (auto simp: inserted_texts_def)
  then show ?thesis
    by (simp add: nth_page_records visible_extract_pdf_data uploads_eq)
qed

text \<open>The two pages \<^verbatim>\<open>Alpha\<close> and \<^verbatim>\<open>Beta\<close> are stored as pages 1 and 2.\<close>

theorem page_number_is_position_witness:
  "visible (snd (extract_pdf_data (connect []) (pdf ''a.pdf'' [''Alpha'', ''Beta'']))) =
     [\<lparr>filename = ''a.pdf'', page_number = 1, content = ''Alpha''\<rparr>,
      \<lparr>filename = ''a.pdf'', page_number = 2, content = ''Beta''\<rparr>] \<and>
   uploads [] [pdf ''a.pdf'' [''Alpha'', ''Beta'']] =
     [\<lparr>filename = ''a.pdf'', page_number = 1, content = ''Alpha''\<rparr>,
      \<lparr>filename = ''a.pdf'', page_number = 2, content = ''Beta''\<rparr>]"
  using page_number_is_position
    [where db = "connect []" and f = "pdf ''a.pdf'' [''Alpha'', ''Beta'']"
       and rows = "[]" and fs = "[pdf ''a.pdf'' [''Alpha'', ''Beta'']]"]
  by (simp add: inserted_texts_pdf name_pdf page_records_two succeeds_pdf
      connect_def visible_def)

subsection \<open>The predefined analysis types\<close>

text \<open>
  C4: for each of the four predefined analysis types, whatever the service would answer,
  pressing the button makes no call to the service and yields no analysis result: the
  lookup of \<^verbatim>\<open>analyze_pdf_content\<close> (line 191) raises \<^verbatim>\<open>AttributeError\<close>, which the
  handler of line 200 shows as \<^verbatim>\<open>Error processing PDF: ...\<close>. The free-form mode, on
  a service that answers, shows the answer after one call.
\<close>

theorem predefined_analysis_raises_attribute_error:
  "analyze_button g ''Summarize'' custom_prompt full_text st =
     (Error (''Error processing PDF: '' @
             str (AttributeError ''AdvancedPDFAnalyzer'' ''analyze_pdf_content'')), st) \<and>
   analyze_button g ''Document Information'' custom_prompt full_text st =
     (Error (''Error processing PDF: '' @
             str (AttributeError ''AdvancedPDFAnalyzer'' ''analyze_pdf_content'')), st) \<and>
   analyze_button g ''Step-by-Step Explanation'' custom_prompt full_text st =
     (Error (''Error processing PDF: '' @
             str (AttributeError ''AdvancedPDFAnalyzer'' ''analyze_pdf_content'')), st) \<and>
   analyze_button g ''Key Insights'' custom_prompt full_text st =
     (Error (''Error processing PDF: '' @
             str (AttributeError ''AdvancedPDFAnalyzer'' ''analyze_pdf_content'')), st) \<and>
   analyze_button (\<lambda>n p. Response ''The summary'') ''Custom Analysis'' ''Summarize'' ''Alpha''
     \<lparr>calls = 0, slept = []\<rparr> =
     (Results ''Custom Analysis'' ''The summary'', \<lparr>calls = 1, slept = []\<rparr>)"
  by (simp add: analyze_button_def getattr_analyzer_def AdvancedPDFAnalyzer_methods_def
      generate_content_with_retry_def default_max_retries_def for_attempt.simps)

end
